theory Spec2Isabelle
  imports Main "HOL-Library.Char_ord" "HOL-Library.List_Lexorder"
begin

section \<open>Data model of \<^verbatim>\<open>insiders.py\<close>\<close>

text \<open>
  A handle is a GitHub login. Python's \<^verbatim>\<open>set[str]\<close> is a HOL set of handles; the
  order in which a \<^verbatim>\<open>for\<close> loop visits a set is not fixed by the language, so it
  is a parameter of the environment (\<open>set_order\<close> below).
\<close>

type_synonym handle = string

text \<open>The dataclasses \<^verbatim>\<open>Account\<close> and \<^verbatim>\<open>Sponsor\<close> (lines 63-84). The type
  \<open>'t\<close> stands for \<^verbatim>\<open>datetime\<close>.\<close>

record Account =
  name :: handle
  image :: string
  url :: string
  org :: bool

record 't Sponsor =
  account :: Account
  "private" :: bool
  created :: 't
  amount :: int

text \<open>The values \<^verbatim>\<open>json.dump\<close> writes.\<close>

datatype json =
  JStr string
| JBool bool
| JInt int
| JList "json list"
| JObj "(string \<times> json) list"

text \<open>\<^verbatim>\<open>Account.as_dict\<close> (lines 70-76).\<close>

definition as_dict :: "Account \<Rightarrow> json" where
  "as_dict self =
     JObj [(''name'', JStr (name self)),
           (''image'', JStr (image self)),
           (''url'', JStr (url self)),
           (''org'', JBool (org self))]"

subsection \<open>Module constants\<close>

text \<open>
  Lines 13-23. The functions below read these globals at run time; they take them as a
  \<open>config\<close> record, and \<open>module_config\<close> is the record of the values in the source.
\<close>

definition MIN_AMOUNT :: int where
  "MIN_AMOUNT = 4"

definition INSIDERS_TEAMS :: "(string \<times> string) list" where
  "INSIDERS_TEAMS = [(''15r10nk-insiders'', ''insiders'')]"

definition PRIVILEGED_USERS :: "handle set" where
  "PRIVILEGED_USERS = {''15r10nk''}"

definition ORG_USERS :: "handle \<rightharpoonup> handle set" where
  "ORG_USERS = Map.empty"

record config =
  min_amount :: int
  insiders_teams :: "(string \<times> string) list"
  privileged_users :: "handle set"
  org_users :: "handle \<rightharpoonup> handle set"

definition module_config :: config where
  "module_config =
     \<lparr>min_amount = MIN_AMOUNT, insiders_teams = INSIDERS_TEAMS,
      privileged_users = PRIVILEGED_USERS, org_users = ORG_USERS\<rparr>"

subsection \<open>Exceptions and HTTP responses\<close>

text \<open>
  The exceptions a run can end with. \<open>RequestError\<close> is a request that got no response;
  \<open>HTTPStatusError\<close> is what \<^verbatim>\<open>raise_for_status\<close> raises, with the status code;
  \<open>JSONDecodeError\<close> comes from \<^verbatim>\<open>response.json()\<close>, \<open>TypeError\<close> and \<open>KeyError\<close>
  from indexing the decoded body; \<open>ValueError\<close> from \<^verbatim>\<open>datetime.strptime\<close>.
\<close>

datatype error =
  RequestError
| HTTPStatusError nat
| JSONDecodeError
| TypeError
| KeyError string
| ValueError

text \<open>
  The body of a response, as \<^verbatim>\<open>grant\<close> and \<^verbatim>\<open>revoke\<close> read it:
  \<^verbatim>\<open>response.content\<close> is empty, or it is not JSON, or it decodes to a value that
  is not an object, or it decodes to an object (its fields as an f-string renders them).
\<close>

datatype body =
  Empty
| NotJson
| NotObject
| Object "(string \<times> string) list"

record response =
  status_code :: nat
  content :: body

text \<open>\<^verbatim>\<open>raise_for_status\<close> of httpx returns normally when \<^verbatim>\<open>is_success\<close> holds, a 2xx
  status, and raises \<^verbatim>\<open>HTTPStatusError\<close> otherwise.\<close>

definition is_success :: "response \<Rightarrow> bool" where
  "is_success r = (200 \<le> status_code r \<and> status_code r \<le> 299)"

definition raise_for_status :: "response \<Rightarrow> error + unit" where
  "raise_for_status r = (if is_success r then Inr () else Inl (HTTPStatusError (status_code r)))"

section \<open>The environment of a run\<close>

text \<open>
  Everything outside the program: the two GitHub APIs, \<^verbatim>\<open>datetime.strptime\<close>, and the
  order in which the runtime iterates over a set. The APIs are stateful (a grant changes
  what a later listing returns), so every request takes the state \<open>'w\<close> of the outside
  world and returns the new one together with its outcome.

  For the three fetching requests the outcome is the decoded data the caller reads, or
  the exception that ends the fetch: the request itself failing, \<^verbatim>\<open>raise_for_status\<close>
  on a non-success status, or the body not having the expected shape (all of them leave
  the fetching function at once, lines 94-103, 138-145 and 153-159).
  For the two mutating requests the outcome is the response, which \<^verbatim>\<open>grant\<close> and
  \<^verbatim>\<open>revoke\<close> inspect themselves, or the exception of a request without response.
\<close>

text \<open>One node of \<^verbatim>\<open>sponsorshipsAsMaintainer\<close> with the fields of the query (lines 41-56),
  and one page of the connection.\<close>

record node =
  createdAt :: string
  isOneTimePayment :: bool
  privacyLevel :: string
  typename :: string
  login :: handle
  avatarUrl :: string
  entity_url :: string
  monthlyPriceInDollars :: int

record sponsorships =
  nodes :: "node list"
  hasNextPage :: bool
  endCursor :: string

record ('w, 't) env =
  post_graphql :: "string \<Rightarrow> 'w \<Rightarrow> (error + sponsorships) \<times> 'w"
  get_team_members :: "string \<Rightarrow> string \<Rightarrow> nat \<Rightarrow> 'w \<Rightarrow> (error + handle list) \<times> 'w"
  get_team_invitations :: "string \<Rightarrow> string \<Rightarrow> 'w \<Rightarrow> (error + handle list) \<times> 'w"
  put_membership :: "string \<Rightarrow> string \<Rightarrow> handle \<Rightarrow> 'w \<Rightarrow> (error + response) \<times> 'w"
  delete_membership :: "string \<Rightarrow> string \<Rightarrow> handle \<Rightarrow> 'w \<Rightarrow> (error + response) \<times> 'w"
  strptime :: "string \<Rightarrow> 't option"
  set_order :: "handle set \<Rightarrow> handle list"

text \<open>
  A \<^verbatim>\<open>for\<close> loop over a finite set visits every element once, in some order.
\<close>

definition iterates_sets :: "('w, 't) env \<Rightarrow> bool" where
  "iterates_sets env =
     (\<forall>S. finite S \<longrightarrow> set (set_order env S) = S \<and> distinct (set_order env S))"

section \<open>Eligibility (lines 199-203 of \<^verbatim>\<open>main\<close>)\<close>

definition eligible_orgs :: "config \<Rightarrow> 't Sponsor list \<Rightarrow> handle set" where
  "eligible_orgs cfg sponsors =
     set (map (\<lambda>sponsor. name (account sponsor))
            (filter (\<lambda>sponsor. org (account sponsor) \<and> amount sponsor \<ge> min_amount cfg) sponsors))"

definition sponsoring_users :: "config \<Rightarrow> 't Sponsor list \<Rightarrow> handle set" where
  "sponsoring_users cfg sponsors =
     set (map (\<lambda>sponsor. name (account sponsor))
            (filter (\<lambda>sponsor. \<not> org (account sponsor) \<and> amount sponsor \<ge> min_amount cfg) sponsors))"

text \<open>\<^verbatim>\<open>ORG_USERS.get(eligible_org, set())\<close>.\<close>

definition org_users_get :: "config \<Rightarrow> handle \<Rightarrow> handle set" where
  "org_users_get cfg eligible_org =
     (case org_users cfg eligible_org of None \<Rightarrow> {} | Some users \<Rightarrow> users)"

text \<open>The loop of lines 202-203 over the elements of \<open>eligible_orgs\<close> in the order given.\<close>

fun add_org_users :: "config \<Rightarrow> handle list \<Rightarrow> handle set \<Rightarrow> handle set" where
  "add_org_users cfg [] eligible_users = eligible_users"
| "add_org_users cfg (eligible_org # rest) eligible_users =
     add_org_users cfg rest (eligible_users \<union> org_users_get cfg eligible_org)"

definition eligible_users :: "('w, 't) env \<Rightarrow> config \<Rightarrow> 't Sponsor list \<Rightarrow> handle set" where
  "eligible_users env cfg sponsors =
     add_org_users cfg (set_order env (eligible_orgs cfg sponsors))
       (sponsoring_users cfg sponsors \<union> privileged_users cfg)"

section \<open>Fetching\<close>

subsection \<open>\<^verbatim>\<open>get_sponsors\<close> (lines 87-131)\<close>

text \<open>
  \<^verbatim>\<open>str.lower\<close> on the ASCII letters. The two strings it is compared with,
  \<^verbatim>\<open>"organization"\<close> and \<^verbatim>\<open>"private"\<close>, are ASCII, and no character outside
  ASCII is lowered to a letter of either.
\<close>

definition lower_char :: "char \<Rightarrow> char" where
  "lower_char c =
     (let n = (of_char c :: nat) in if 65 \<le> n \<and> n \<le> 90 then char_of (n + 32) else c)"

definition lower :: "string \<Rightarrow> string" where
  "lower s = map lower_char s"

text \<open>
  The \<^verbatim>\<open>for item in ...["nodes"]\<close> loop of lines 103-123, appending to \<open>sponsors\<close>.
  A one-time payment is skipped before any of its fields is read.
\<close>

fun append_sponsors ::
  "('w, 't) env \<Rightarrow> node list \<Rightarrow> 't Sponsor list \<Rightarrow> error + 't Sponsor list" where
  "append_sponsors env [] sponsors = Inr sponsors"
| "append_sponsors env (item # items) sponsors =
     (if isOneTimePayment item then append_sponsors env items sponsors
      else
        (let account = \<lparr>name = login item, image = avatarUrl item, url = entity_url item,
                         org = (lower (typename item) = ''organization'')\<rparr>
         in case strptime env (createdAt item) of
              None \<Rightarrow> Inl ValueError
            | Some t \<Rightarrow>
                append_sponsors env items
                  (sponsors @
                   [\<lparr>account = account,
                     private = (lower (privacyLevel item) = ''private''),
                     created = t,
                     amount = monthlyPriceInDollars item\<rparr>])))"

text \<open>The cursor of the next request: \<^verbatim>\<open>f'"{endCursor}"'\<close>.\<close>

definition quoted :: "string \<Rightarrow> string" where
  "quoted s = [CHR 0x22] @ s @ [CHR 0x22]"

text \<open>
  The \<^verbatim>\<open>while True\<close> loop of lines 91-129. Nothing bounds the number of pages, so the
  loop is a partial function: \<open>None\<close> is a run that never leaves the loop.
\<close>

partial_function (option) get_sponsors_loop ::
  "('w, 't) env \<Rightarrow> string \<Rightarrow> 't Sponsor list \<Rightarrow> 'w \<Rightarrow> ((error + 't Sponsor list) \<times> 'w) option"
where
  "get_sponsors_loop env cursor sponsors w =
     (case post_graphql env cursor w of
        (Inl e, w') \<Rightarrow> Some (Inl e, w')
      | (Inr data, w') \<Rightarrow>
          (case append_sponsors env (nodes data) sponsors of
             Inl e \<Rightarrow> Some (Inl e, w')
           | Inr sponsors' \<Rightarrow>
               if hasNextPage data
               then get_sponsors_loop env (quoted (endCursor data)) sponsors' w'
               else Some (Inr sponsors', w')))"

declare get_sponsors_loop.simps [code]

definition get_sponsors ::
  "('w, 't) env \<Rightarrow> 'w \<Rightarrow> ((error + 't Sponsor list) \<times> 'w) option" where
  "get_sponsors env w = get_sponsors_loop env ''null'' [] w"

subsection \<open>\<^verbatim>\<open>get_members\<close> (lines 134-149) and \<^verbatim>\<open>get_invited\<close> (lines 152-159)\<close>

text \<open>
  The \<^verbatim>\<open>while True\<close> loop of lines 137-148. It leaves with the set \<open>members\<close>
  accumulated so far and with the last \<open>response\<close> (its decoded list of logins), the two
  variables that are live at line 149.
\<close>

partial_function (option) get_members_loop ::
  "('w, 't) env \<Rightarrow> string \<Rightarrow> string \<Rightarrow> nat \<Rightarrow> handle set \<Rightarrow> 'w
     \<Rightarrow> ((error + handle set \<times> handle list) \<times> 'w) option"
where
  "get_members_loop env org' team page members w =
     (case get_team_members env org' team page w of
        (Inl e, w') \<Rightarrow> Some (Inl e, w')
      | (Inr response_data, w') \<Rightarrow>
          if length response_data < 100
          then Some (Inr (members \<union> set response_data, response_data), w')
          else get_members_loop env org' team (page + 1) (members \<union> set response_data) w')"

declare get_members_loop.simps [code]

text \<open>Line 149 returns the logins of \<^verbatim>\<open>response.json()\<close>, the last response;
  \<open>members\<close> is not read.\<close>

definition get_members ::
  "('w, 't) env \<Rightarrow> string \<Rightarrow> string \<Rightarrow> 'w \<Rightarrow> ((error + handle set) \<times> 'w) option" where
  "get_members env org' team w =
     (case get_members_loop env org' team 1 {} w of
        None \<Rightarrow> None
      | Some (Inl e, w') \<Rightarrow> Some (Inl e, w')
      | Some (Inr (members, response), w') \<Rightarrow> Some (Inr (set response), w'))"

definition get_invited ::
  "('w, 't) env \<Rightarrow> string \<Rightarrow> string \<Rightarrow> 'w \<Rightarrow> (error + handle set) \<times> 'w" where
  "get_invited env org' team w =
     (case get_team_invitations env org' team w of
        (Inl e, w') \<Rightarrow> (Inl e, w')
      | (Inr response, w') \<Rightarrow> (Inr (set response), w'))"

section \<open>Applying\<close>

text \<open>
  What a run does to the outside: the state of the world, the membership requests it has
  sent (each with its outcome), the lines it has printed, and the files it has written.
  The request log is kept for the statements about which calls a run issues; the
  program does not read it.
\<close>

datatype request =
  PUT string string handle
| DELETE string string handle

text \<open>The printed lines, each f-string with its arguments.\<close>

datatype line =
  Couldnt_add handle string string error
| Added handle string string
| Couldnt_remove handle string string error
| Removed handle string string
| Message_see string string

record 'w state =
  world :: 'w
  calls :: "(request \<times> (error + response)) list"
  stdout :: "line list"
  files :: "string \<rightharpoonup> json"

definition print :: "line \<Rightarrow> 'w state \<Rightarrow> 'w state" where
  "print l s = s\<lparr>stdout := stdout s @ [l]\<rparr>"

definition sent :: "request \<Rightarrow> error + response \<Rightarrow> 'w \<Rightarrow> 'w state \<Rightarrow> 'w state" where
  "sent rq outcome w s = s\<lparr>world := w, calls := calls s @ [(rq, outcome)]\<rparr>"

subsection \<open>\<^verbatim>\<open>grant\<close> (lines 162-176) and \<^verbatim>\<open>revoke\<close> (lines 179-193)\<close>

definition grant ::
  "('w, 't) env \<Rightarrow> handle \<Rightarrow> string \<Rightarrow> string \<Rightarrow> 'w state \<Rightarrow> (error + unit) \<times> 'w state" where
  "grant env user org' team s =
     (case put_membership env org' team user (world s) of
        (Inl e, w) \<Rightarrow> (Inl e, sent (PUT org' team user) (Inl e) w s)
      | (Inr response, w) \<Rightarrow>
          (let s1 = sent (PUT org' team user) (Inr response) w s in
           case raise_for_status response of
             Inl error \<Rightarrow>
               (let s2 = print (Couldnt_add user org' team error) s1 in
                case content response of
                  Empty \<Rightarrow> (Inr (), s2)
                | NotJson \<Rightarrow> (Inl JSONDecodeError, s2)
                | NotObject \<Rightarrow> (Inl TypeError, s2)
                | Object response_body \<Rightarrow>
                    (case map_of response_body ''message'' of
                       None \<Rightarrow> (Inl (KeyError ''message''), s2)
                     | Some message \<Rightarrow>
                         (case map_of response_body ''documentation_url'' of
                            None \<Rightarrow> (Inl (KeyError ''documentation_url''), s2)
                          | Some documentation_url \<Rightarrow>
                              (Inr (), print (Message_see message documentation_url) s2))))
           | Inr _ \<Rightarrow> (Inr (), print (Added user org' team) s1)))"

definition revoke ::
  "('w, 't) env \<Rightarrow> handle \<Rightarrow> string \<Rightarrow> string \<Rightarrow> 'w state \<Rightarrow> (error + unit) \<times> 'w state" where
  "revoke env user org' team s =
     (case delete_membership env org' team user (world s) of
        (Inl e, w) \<Rightarrow> (Inl e, sent (DELETE org' team user) (Inl e) w s)
      | (Inr response, w) \<Rightarrow>
          (let s1 = sent (DELETE org' team user) (Inr response) w s in
           case raise_for_status response of
             Inl error \<Rightarrow>
               (let s2 = print (Couldnt_remove user org' team error) s1 in
                case content response of
                  Empty \<Rightarrow> (Inr (), s2)
                | NotJson \<Rightarrow> (Inl JSONDecodeError, s2)
                | NotObject \<Rightarrow> (Inl TypeError, s2)
                | Object response_body \<Rightarrow>
                    (case map_of response_body ''message'' of
                       None \<Rightarrow> (Inl (KeyError ''message''), s2)
                     | Some message \<Rightarrow>
                         (case map_of response_body ''documentation_url'' of
                            None \<Rightarrow> (Inl (KeyError ''documentation_url''), s2)
                          | Some documentation_url \<Rightarrow>
                              (Inr (), print (Message_see message documentation_url) s2))))
           | Inr _ \<Rightarrow> (Inr (), print (Removed user org' team) s1)))"

subsection \<open>Reconciling one team (lines 206-214 of \<^verbatim>\<open>main\<close>)\<close>

text \<open>The loop of lines 208-210 over the members in the order given; an exception
  leaving \<^verbatim>\<open>revoke\<close> ends it.\<close>

fun revoke_loop ::
  "('w, 't) env \<Rightarrow> handle set \<Rightarrow> string \<Rightarrow> string \<Rightarrow> handle list \<Rightarrow> 'w state
     \<Rightarrow> (error + unit) \<times> 'w state" where
  "revoke_loop env eligible org' team [] s = (Inr (), s)"
| "revoke_loop env eligible org' team (user # rest) s =
     (if user \<notin> eligible
      then (case revoke env user org' team s of
              (Inl e, s') \<Rightarrow> (Inl e, s')
            | (Inr _, s') \<Rightarrow> revoke_loop env eligible org' team rest s')
      else revoke_loop env eligible org' team rest s)"

text \<open>The loop of lines 212-214 over the eligible users in the order given.\<close>

fun grant_loop ::
  "('w, 't) env \<Rightarrow> handle set \<Rightarrow> string \<Rightarrow> string \<Rightarrow> handle list \<Rightarrow> 'w state
     \<Rightarrow> (error + unit) \<times> 'w state" where
  "grant_loop env members org' team [] s = (Inr (), s)"
| "grant_loop env members org' team (user # rest) s =
     (if user \<notin> members
      then (case grant env user org' team s of
              (Inl e, s') \<Rightarrow> (Inl e, s')
            | (Inr _, s') \<Rightarrow> grant_loop env members org' team rest s')
      else grant_loop env members org' team rest s)"

text \<open>Line 206: the membership snapshot, \<^verbatim>\<open>get_members(org, team) | get_invited(org, team)\<close>.\<close>

definition current_members ::
  "('w, 't) env \<Rightarrow> string \<Rightarrow> string \<Rightarrow> 'w \<Rightarrow> ((error + handle set) \<times> 'w) option" where
  "current_members env org' team w =
     (case get_members env org' team w of
        None \<Rightarrow> None
      | Some (Inl e, w1) \<Rightarrow> Some (Inl e, w1)
      | Some (Inr confirmed, w1) \<Rightarrow>
          (case get_invited env org' team w1 of
             (Inl e, w2) \<Rightarrow> Some (Inl e, w2)
           | (Inr invited, w2) \<Rightarrow> Some (Inr (confirmed \<union> invited), w2)))"

text \<open>The body of the loop over \<^verbatim>\<open>INSIDERS_TEAMS\<close>, for one team.\<close>

definition reconcile ::
  "('w, 't) env \<Rightarrow> handle set \<Rightarrow> string \<Rightarrow> string \<Rightarrow> 'w state
     \<Rightarrow> ((error + unit) \<times> 'w state) option" where
  "reconcile env eligible org' team s =
     (case current_members env org' team (world s) of
        None \<Rightarrow> None
      | Some (Inl e, w) \<Rightarrow> Some (Inl e, s\<lparr>world := w\<rparr>)
      | Some (Inr members, w) \<Rightarrow>
          (case revoke_loop env eligible org' team (set_order env members) (s\<lparr>world := w\<rparr>) of
             (Inl e, s') \<Rightarrow> Some (Inl e, s')
           | (Inr _, s') \<Rightarrow> Some (grant_loop env members org' team (set_order env eligible) s')))"

fun reconcile_teams ::
  "('w, 't) env \<Rightarrow> handle set \<Rightarrow> (string \<times> string) list \<Rightarrow> 'w state
     \<Rightarrow> ((error + unit) \<times> 'w state) option" where
  "reconcile_teams env eligible [] s = Some (Inr (), s)"
| "reconcile_teams env eligible ((org', team) # teams) s =
     (case reconcile env eligible org' team s of
        None \<Rightarrow> None
      | Some (Inl e, s') \<Rightarrow> Some (Inl e, s')
      | Some (Inr _, s') \<Rightarrow> reconcile_teams env eligible teams s')"

section \<open>\<^verbatim>\<open>main\<close> (lines 196-221)\<close>

text \<open>Lines 216-221: the two reports; \<^verbatim>\<open>open(..., "w")\<close> replaces a file of that name.\<close>

definition write_file :: "string \<Rightarrow> json \<Rightarrow> 'w state \<Rightarrow> 'w state" where
  "write_file path v s = s\<lparr>files := (files s)(path \<mapsto> v)\<rparr>"

definition numbers_json :: "'t Sponsor list \<Rightarrow> json" where
  "numbers_json sponsors =
     (let total = sum_list (map amount sponsors);
          count = length sponsors
      in JObj [(''total'', JInt total), (''count'', JInt (int count))])"

definition sponsors_json :: "'t Sponsor list \<Rightarrow> json" where
  "sponsors_json sponsors =
     JList (map (\<lambda>sponsor. as_dict (account sponsor))
              (filter (\<lambda>sponsor. \<not> private sponsor) sponsors))"

definition write_reports :: "'t Sponsor list \<Rightarrow> 'w state \<Rightarrow> 'w state" where
  "write_reports sponsors s =
     write_file ''sponsors.json'' (sponsors_json sponsors)
       (write_file ''numbers.json'' (numbers_json sponsors) s)"

definition main ::
  "('w, 't) env \<Rightarrow> config \<Rightarrow> 'w state \<Rightarrow> ((error + unit) \<times> 'w state) option" where
  "main env cfg s =
     (case get_sponsors env (world s) of
        None \<Rightarrow> None
      | Some (Inl e, w) \<Rightarrow> Some (Inl e, s\<lparr>world := w\<rparr>)
      | Some (Inr sponsors, w) \<Rightarrow>
          (case reconcile_teams env (eligible_users env cfg sponsors) (insiders_teams cfg)
                  (s\<lparr>world := w\<rparr>) of
             None \<Rightarrow> None
           | Some (Inl e, s') \<Rightarrow> Some (Inl e, s')
           | Some (Inr _, s') \<Rightarrow> Some (Inr (), write_reports sponsors s')))"

text \<open>A process starts with nothing sent, printed or written.\<close>

definition start :: "'w \<Rightarrow> 'w state" where
  "start w = \<lparr>world = w, calls = [], stdout = [], files = Map.empty\<rparr>"

section \<open>Vocabulary of the statements\<close>

text \<open>The handles a run has sent a \<^verbatim>\<open>DELETE\<close> for, and those it has sent a \<^verbatim>\<open>PUT\<close>
  for, in the order of the requests.\<close>

fun revoked_by :: "request \<times> (error + response) \<Rightarrow> handle list" where
  "revoked_by (DELETE org' team user, outcome) = [user]"
| "revoked_by (PUT org' team user, outcome) = []"

fun granted_by :: "request \<times> (error + response) \<Rightarrow> handle list" where
  "granted_by (PUT org' team user, outcome) = [user]"
| "granted_by (DELETE org' team user, outcome) = []"

definition revoked :: "'w state \<Rightarrow> handle list" where
  "revoked s = concat (map revoked_by (calls s))"

definition granted :: "'w state \<Rightarrow> handle list" where
  "granted s = concat (map granted_by (calls s))"

text \<open>
  A response in the provider's documented format: a success, or a failure whose body is
  empty or an object with \<^verbatim>\<open>message\<close> and \<^verbatim>\<open>documentation_url\<close>.
\<close>

definition documented :: "response \<Rightarrow> bool" where
  "documented r =
     (is_success r \<or>
      (case content r of
         Empty \<Rightarrow> True
       | NotJson \<Rightarrow> False
       | NotObject \<Rightarrow> False
       | Object response_body \<Rightarrow>
           map_of response_body ''message'' \<noteq> None \<and>
           map_of response_body ''documentation_url'' \<noteq> None))"

text \<open>Every membership request is answered, in the documented format.\<close>

definition answers_documented :: "('w, 't) env \<Rightarrow> bool" where
  "answers_documented env =
     (\<forall>org' team user w.
        (\<exists>r. fst (put_membership env org' team user w) = Inr r \<and> documented r) \<and>
        (\<exists>r. fst (delete_membership env org' team user w) = Inr r \<and> documented r))"

text \<open>
  The lines the specification asks for after one membership request: the success line,
  or the failure line followed, when the response has a body, by the provider's message
  and documentation link.
\<close>

fun success_line :: "request \<Rightarrow> line" where
  "success_line (PUT org' team user) = Added user org' team"
| "success_line (DELETE org' team user) = Removed user org' team"

fun failure_line :: "request \<Rightarrow> nat \<Rightarrow> line" where
  "failure_line (PUT org' team user) code = Couldnt_add user org' team (HTTPStatusError code)"
| "failure_line (DELETE org' team user) code = Couldnt_remove user org' team (HTTPStatusError code)"

fun provider_lines :: "body \<Rightarrow> line list" where
  "provider_lines (Object response_body) =
     (case (map_of response_body ''message'', map_of response_body ''documentation_url'') of
        (Some message, Some documentation_url) \<Rightarrow> [Message_see message documentation_url]
      | _ \<Rightarrow> [])"
| "provider_lines _ = []"

fun diagnostic :: "request \<times> (error + response) \<Rightarrow> line list" where
  "diagnostic (rq, Inl e) = []"
| "diagnostic (rq, Inr r) =
     (if is_success r then [success_line rq]
      else failure_line rq (status_code r) # provider_lines (content r))"

text \<open>
  The environment in which the sponsorship API returns no one-time payment: each page of
  \<open>env\<close> with its one-time nodes removed, everything else as in \<open>env\<close>.
\<close>

definition without_one_time :: "('w, 't) env \<Rightarrow> ('w, 't) env" where
  "without_one_time env =
     env\<lparr>post_graphql := (\<lambda>cursor w.
       case post_graphql env cursor w of
         (Inl e, w') \<Rightarrow> (Inl e, w')
       | (Inr data, w') \<Rightarrow>
           (Inr (data\<lparr>nodes := filter (\<lambda>item. \<not> isOneTimePayment item) (nodes data)\<rparr>), w'))\<rparr>"

section \<open>A simulated GitHub\<close>

text \<open>
  A small executable environment for concrete runs: one team, its confirmed members and
  pending invitations, the sponsorships of the viewer, and the logins GitHub does not
  know. Listings are paginated as the API paginates them, with 100 entries to a page; a
  cursor is the offset of the next page in unary.
\<close>

record github =
  sponsorships_of :: "node list"
  confirmed_of :: "handle list"
  invited_of :: "handle list"
  unknown_logins :: "handle list"

definition not_found :: response where
  "not_found =
     \<lparr>status_code = 404,
      content = Object [(''message'', ''Not Found''),
                        (''documentation_url'', ''https://docs.github.com/rest'')]\<rparr>"

definition ok_active :: response where
  "ok_active = \<lparr>status_code = 200, content = Object [(''state'', ''active'')]\<rparr>"

definition no_content :: response where
  "no_content = \<lparr>status_code = 204, content = Empty\<rparr>"

definition bad_gateway :: response where
  "bad_gateway = \<lparr>status_code = 502, content = NotJson\<rparr>"

definition offset_of :: "string \<Rightarrow> nat" where
  "offset_of cursor = (if cursor = ''null'' then 0 else length cursor - 2)"

definition simulated :: "(github, string) env" where
  "simulated =
     \<lparr>post_graphql = (\<lambda>cursor w.
        (Inr \<lparr>nodes = take 100 (drop (offset_of cursor) (sponsorships_of w)),
              hasNextPage = (offset_of cursor + 100 < length (sponsorships_of w)),
              endCursor = replicate (offset_of cursor + 100) CHR ''x''\<rparr>, w)),
      get_team_members = (\<lambda>org' team page w.
        (Inr (take 100 (drop (100 * (page - 1)) (confirmed_of w))), w)),
      get_team_invitations = (\<lambda>org' team w. (Inr (take 100 (invited_of w)), w)),
      put_membership = (\<lambda>org' team user w.
        if user \<in> set (unknown_logins w) then (Inr not_found, w)
        else (Inr ok_active, w\<lparr>confirmed_of := List.insert user (confirmed_of w)\<rparr>)),
      delete_membership = (\<lambda>org' team user w.
        if user \<in> set (confirmed_of w) \<or> user \<in> set (invited_of w)
        then (Inr no_content, w\<lparr>confirmed_of := removeAll user (confirmed_of w),
                                  invited_of := removeAll user (invited_of w)\<rparr>)
        else (Inr not_found, w)),
      strptime = Some,
      set_order = sorted_list_of_set\<rparr>"

text \<open>The same API under a runtime that iterates over sets in the order \<open>order\<close>.\<close>

definition simulated_in :: "(handle set \<Rightarrow> handle list) \<Rightarrow> (github, string) env" where
  "simulated_in order = simulated\<lparr>set_order := order\<rparr>"

text \<open>The same API behind a gateway that answers every \<^verbatim>\<open>PUT\<close> for one login with
  a 502 and an HTML page.\<close>

definition behind_gateway :: "handle \<Rightarrow> (github, string) env" where
  "behind_gateway down =
     simulated\<lparr>put_membership := (\<lambda>org' team user w.
       if user = down then (Inr bad_gateway, w) else put_membership simulated org' team user w)\<rparr>"

subsection \<open>The end-to-end scenario of the specification\<close>

definition scenario_config :: config where
  "scenario_config =
     \<lparr>min_amount = 4, insiders_teams = [(''acme-insiders'', ''insiders'')],
      privileged_users = {''zed''}, org_users = [''acme'' \<mapsto> {''bob''}]\<rparr>"

definition alice_node :: node where
  "alice_node =
     \<lparr>createdAt = ''2024-01-02T03:04:05Z'', isOneTimePayment = False,
      privacyLevel = ''PUBLIC'', typename = ''User'', login = ''alice'',
      avatarUrl = ''https://avatars.githubusercontent.com/u/1'',
      entity_url = ''https://github.com/alice'', monthlyPriceInDollars = 10\<rparr>"

definition acme_node :: node where
  "acme_node =
     \<lparr>createdAt = ''2024-01-01T00:00:00Z'', isOneTimePayment = False,
      privacyLevel = ''PUBLIC'', typename = ''Organization'', login = ''acme'',
      avatarUrl = ''https://avatars.githubusercontent.com/u/2'',
      entity_url = ''https://github.com/acme'', monthlyPriceInDollars = 5\<rparr>"

definition scenario_world :: github where
  "scenario_world =
     \<lparr>sponsorships_of = [alice_node, acme_node],
      confirmed_of = [''zed'', ''carol''],
      invited_of = [],
      unknown_logins = []\<rparr>"

text \<open>The sponsors \<^verbatim>\<open>get_sponsors\<close> returns in the scenario.\<close>

definition alice :: "string Sponsor" where
  "alice =
     \<lparr>account = \<lparr>name = ''alice'', image = ''https://avatars.githubusercontent.com/u/1'',
                  url = ''https://github.com/alice'', org = False\<rparr>,
      private = False, created = ''2024-01-02T03:04:05Z'', amount = 10\<rparr>"

definition acme :: "string Sponsor" where
  "acme =
     \<lparr>account = \<lparr>name = ''acme'', image = ''https://avatars.githubusercontent.com/u/2'',
                  url = ''https://github.com/acme'', org = True\<rparr>,
      private = False, created = ''2024-01-01T00:00:00Z'', amount = 5\<rparr>"

text \<open>The world the scenario's run leaves behind: carol removed, alice and bob added.\<close>

definition settled_world :: github where
  "settled_world = scenario_world\<lparr>confirmed_of := [''bob'', ''alice'', ''zed'']\<rparr>"

text \<open>The scenario with alice's login unknown to GitHub.\<close>

definition alice_unknown_world :: github where
  "alice_unknown_world = scenario_world\<lparr>unknown_logins := [''alice'']\<rparr>"

subsection \<open>The maintainer's team\<close>

text \<open>A world for the constants of the module: the maintainer and carol are members of
  the team, alice and acme sponsor as in the scenario.\<close>

definition maintainer_world :: github where
  "maintainer_world = scenario_world\<lparr>confirmed_of := [''15r10nk'', ''carol'']\<rparr>"

subsection \<open>A team of 101 members\<close>

text \<open>
  The maintainer's team with 101 confirmed members, listed on two pages: the maintainer
  and \<^verbatim>\<open>user01\<close> to \<^verbatim>\<open>user99\<close> on the first, \<^verbatim>\<open>zoe\<close> on the second. zoe
  sponsors 5 a month; there is no other sponsor.
\<close>

definition numbered :: "string \<Rightarrow> nat \<Rightarrow> handle" where
  "numbered prefix n = prefix @ [char_of (48 + n div 10), char_of (48 + n mod 10)]"

definition first_page :: "handle list" where
  "first_page = ''15r10nk'' # map (numbered ''user'') [1..<100]"

definition zoe_node :: node where
  "zoe_node =
     \<lparr>createdAt = ''2024-02-29T12:00:00Z'', isOneTimePayment = False,
      privacyLevel = ''PUBLIC'', typename = ''User'', login = ''zoe'',
      avatarUrl = ''https://avatars.githubusercontent.com/u/5'',
      entity_url = ''https://github.com/zoe'', monthlyPriceInDollars = 5\<rparr>"

definition large_team_world :: github where
  "large_team_world =
     \<lparr>sponsorships_of = [zoe_node],
      confirmed_of = first_page @ [''zoe''],
      invited_of = [],
      unknown_logins = []\<rparr>"

subsection \<open>A settled team of 101 members\<close>

text \<open>
  The same team when every member but the maintainer sponsors 5 a month: the members are
  exactly the eligible handles, as a run that granted all of them leaves the team.
\<close>

definition sponsor_node :: "handle \<Rightarrow> node" where
  "sponsor_node user =
     \<lparr>createdAt = ''2024-01-01T00:00:00Z'', isOneTimePayment = False,
      privacyLevel = ''PUBLIC'', typename = ''User'', login = user,
      avatarUrl = ''https://avatars.githubusercontent.com/'' @ user,
      entity_url = ''https://github.com/'' @ user, monthlyPriceInDollars = 5\<rparr>"

definition sponsor_of :: "handle \<Rightarrow> string Sponsor" where
  "sponsor_of user =
     \<lparr>account = \<lparr>name = user, image = ''https://avatars.githubusercontent.com/'' @ user,
                  url = ''https://github.com/'' @ user, org = False\<rparr>,
      private = False, created = ''2024-01-01T00:00:00Z'', amount = 5\<rparr>"

definition settled_sponsors :: "handle list" where
  "settled_sponsors = map (numbered ''user'') [1..<100] @ [''zoe'']"

definition settled_large_world :: github where
  "settled_large_world =
     large_team_world\<lparr>sponsorships_of := map sponsor_node settled_sponsors\<rparr>"

subsection \<open>Private and one-time sponsorships\<close>

definition pat_node :: node where
  "pat_node =
     \<lparr>createdAt = ''2023-12-24T18:00:00Z'', isOneTimePayment = False,
      privacyLevel = ''PRIVATE'', typename = ''User'', login = ''pat'',
      avatarUrl = ''https://avatars.githubusercontent.com/u/3'',
      entity_url = ''https://github.com/pat'', monthlyPriceInDollars = 7\<rparr>"

definition dave_node :: node where
  "dave_node =
     \<lparr>createdAt = ''2023-11-11T11:11:11Z'', isOneTimePayment = True,
      privacyLevel = ''PUBLIC'', typename = ''User'', login = ''dave'',
      avatarUrl = ''https://avatars.githubusercontent.com/u/4'',
      entity_url = ''https://github.com/dave'', monthlyPriceInDollars = 100\<rparr>"

definition pat :: "string Sponsor" where
  "pat =
     \<lparr>account = \<lparr>name = ''pat'', image = ''https://avatars.githubusercontent.com/u/3'',
                  url = ''https://github.com/pat'', org = False\<rparr>,
      private = True, created = ''2023-12-24T18:00:00Z'', amount = 7\<rparr>"

definition reports_world :: github where
  "reports_world =
     \<lparr>sponsorships_of = [alice_node, pat_node, dave_node],
      confirmed_of = [''alice'', ''pat'', ''zed''],
      invited_of = [],
      unknown_logins = []\<rparr>"

section \<open>Iteration order\<close>

lemma set_set_order: "iterates_sets env \<Longrightarrow> finite S \<Longrightarrow> set (set_order env S) = S"
  by (simp add: iterates_sets_def)

lemma distinct_set_order: "iterates_sets env \<Longrightarrow> finite S \<Longrightarrow> distinct (set_order env S)"
  by (simp add: iterates_sets_def)

lemma iterates_sets_simulated: "iterates_sets simulated"
  by (simp add: iterates_sets_def simulated_def)

section \<open>Properties of the eligibility computation\<close>

lemma add_org_users_eq:
  "add_org_users cfg os users = users \<union> (\<Union>eligible_org \<in> set os. org_users_get cfg eligible_org)"
  by (induction os arbitrary: users) auto

lemma eligible_orgs_iff:
  "eligible_orgs cfg sponsors =
     {name (account s) | s. s \<in> set sponsors \<and> org (account s) \<and> min_amount cfg \<le> amount s}"
  by (auto simp: eligible_orgs_def)

lemma sponsoring_users_iff:
  "sponsoring_users cfg sponsors =
     {name (account s) | s. s \<in> set sponsors \<and> \<not> org (account s) \<and> min_amount cfg \<le> amount s}"
  by (auto simp: sponsoring_users_def)

lemma finite_eligible_orgs: "finite (eligible_orgs cfg sponsors)"
  by (simp add: eligible_orgs_def)

lemma privileged_eligible: "privileged_users cfg \<subseteq> eligible_users env cfg sponsors"
  by (auto simp: eligible_users_def add_org_users_eq)

lemma scenario_eligible:
  "eligible_users simulated scenario_config [alice, acme] = {''alice'', ''bob'', ''zed''}"
  by code_simp

text \<open>
  \<^bold>\<open>C3.\<close> Whatever the order in which the loop of lines 202-203 visits the eligible
  organizations, the final eligibility set is the union of the handles of the individual
  sponsors at or above the threshold, the privileged handles, and the expansion sets of
  the organization sponsors at or above the threshold, an organization without an entry
  contributing nothing.
\<close>

theorem eligibility_is_union:
  assumes "iterates_sets env"
  shows "eligible_users env cfg sponsors =
           {name (account s) | s. s \<in> set sponsors \<and> \<not> org (account s) \<and> min_amount cfg \<le> amount s}
           \<union> privileged_users cfg
           \<union> (\<Union>eligible_org \<in> {name (account s) | s. s \<in> set sponsors \<and> org (account s) \<and> min_amount cfg \<le> amount s}.
                 case org_users cfg eligible_org of None \<Rightarrow> {} | Some users \<Rightarrow> users)"
proof -
  have "set (set_order env (eligible_orgs cfg sponsors)) = eligible_orgs cfg sponsors"
    using assms by (rule set_set_order) (rule finite_eligible_orgs)
  then have "eligible_users env cfg sponsors =
      sponsoring_users cfg sponsors \<union> privileged_users cfg
      \<union> (\<Union>eligible_org \<in> eligible_orgs cfg sponsors. org_users_get cfg eligible_org)"
    by (simp add: eligible_users_def add_org_users_eq)
  then show ?thesis
    by (simp only: eligible_orgs_iff sponsoring_users_iff org_users_get_def)
qed

theorem eligibility_is_union_witness:
  "iterates_sets simulated \<and>
   {''alice'', ''bob'', ''zed''} =
     {name (account s) | s. s \<in> set [alice, acme] \<and> \<not> org (account s) \<and> min_amount scenario_config \<le> amount s}
     \<union> privileged_users scenario_config
     \<union> (\<Union>eligible_org \<in> {name (account s) | s. s \<in> set [alice, acme] \<and> org (account s) \<and> min_amount scenario_config \<le> amount s}.
           case org_users scenario_config eligible_org of None \<Rightarrow> {} | Some users \<Rightarrow> users)"
  using eligibility_is_union [OF iterates_sets_simulated, of scenario_config "[alice, acme]"]
    iterates_sets_simulated scenario_eligible
  by simp

text \<open>
  \<^bold>\<open>C6\<close>, as stated, fails: acme sponsors 5 with a threshold of 4, and its handle is
  neither in the set built from direct sponsorship (line 200 keeps individuals only) nor
  in the final eligibility set.
\<close>

theorem org_sponsor_not_direct:
  "acme \<in> set [alice, acme] \<and> min_amount scenario_config \<le> amount acme \<and>
   name (account acme) \<notin> sponsoring_users scenario_config [alice, acme] \<and>
   name (account acme) \<notin> eligible_users simulated scenario_config [alice, acme]"
  by code_simp

text \<open>
  \<^bold>\<open>C6\<close>, amended. A handle is in the set built from direct sponsorship exactly when
  some sponsor record of an individual account with that handle is at or above the
  threshold; so a handle none of whose records meets the threshold is not in it.
\<close>

theorem direct_threshold:
  "h \<in> sponsoring_users cfg sponsors \<longleftrightarrow>
     (\<exists>s \<in> set sponsors. name (account s) = h \<and> \<not> org (account s) \<and> min_amount cfg \<le> amount s)"
  by (auto simp: sponsoring_users_def)

theorem direct_threshold_witness:
  "''alice'' \<in> sponsoring_users scenario_config [alice, acme] \<and>
   alice \<in> set [alice, acme] \<and> \<not> org (account alice) \<and> min_amount scenario_config \<le> amount alice"
  using direct_threshold [of "''alice''" scenario_config "[alice, acme]"]
  by (simp add: alice_def acme_def scenario_config_def)

section \<open>Properties of the apply phase\<close>

subsection \<open>One request\<close>

lemma grant_result:
  "grant env user org' team s = (r, s') \<Longrightarrow>
     \<exists>outcome. calls s' = calls s @ [(PUT org' team user, outcome)]"
  by (auto simp: grant_def sent_def print_def Let_def
      split: prod.splits sum.splits body.splits option.splits)

lemma revoke_result:
  "revoke env user org' team s = (r, s') \<Longrightarrow>
     \<exists>outcome. calls s' = calls s @ [(DELETE org' team user, outcome)]"
  by (auto simp: revoke_def sent_def print_def Let_def
      split: prod.splits sum.splits body.splits option.splits)

lemma grant_revoked: "grant env user org' team s = (r, s') \<Longrightarrow> revoked s' = revoked s"
  by (drule grant_result) (auto simp: revoked_def)

lemma revoke_revoked: "revoke env user org' team s = (r, s') \<Longrightarrow> revoked s' = revoked s @ [user]"
  by (drule revoke_result) (auto simp: revoked_def)

lemma grant_loop_revoked:
  "grant_loop env members org' team users s = (r, s') \<Longrightarrow> revoked s' = revoked s"
proof (induction users arbitrary: s)
  case Nil
  then show ?case by simp
next
  case (Cons user rest)
  show ?case
  proof (cases "user \<notin> members")
    case False
    with Cons show ?thesis by simp
  next
    case True
    obtain r1 s1 where g: "grant env user org' team s = (r1, s1)"
      by (cases "grant env user org' team s")
    then have eq: "revoked s1 = revoked s" by (rule grant_revoked)
    show ?thesis
    proof (cases r1)
      case (Inl e)
      with Cons.prems True g eq show ?thesis by simp
    next
      case (Inr u)
      with Cons.prems True g have "grant_loop env members org' team rest s1 = (r, s')" by simp
      then have "revoked s' = revoked s1" by (rule Cons.IH)
      with eq show ?thesis by simp
    qed
  qed
qed

lemma revoke_loop_revoked:
  "revoke_loop env eligible org' team users s = (r, s') \<Longrightarrow>
     set (revoked s') \<subseteq> set (revoked s) \<union> (set users - eligible)"
proof (induction users arbitrary: s)
  case Nil
  then show ?case by simp
next
  case (Cons user rest)
  show ?case
  proof (cases "user \<notin> eligible")
    case False
    with Cons.prems have "revoke_loop env eligible org' team rest s = (r, s')" by simp
    then have "set (revoked s') \<subseteq> set (revoked s) \<union> (set rest - eligible)" by (rule Cons.IH)
    then show ?thesis by auto
  next
    case True
    obtain r1 s1 where g: "revoke env user org' team s = (r1, s1)"
      by (cases "revoke env user org' team s")
    then have eq: "revoked s1 = revoked s @ [user]" by (rule revoke_revoked)
    show ?thesis
    proof (cases r1)
      case (Inl e)
      with Cons.prems True g eq show ?thesis by auto
    next
      case (Inr u)
      with Cons.prems True g have "revoke_loop env eligible org' team rest s1 = (r, s')" by simp
      then have "set (revoked s') \<subseteq> set (revoked s1) \<union> (set rest - eligible)" by (rule Cons.IH)
      with eq True show ?thesis by auto
    qed
  qed
qed

lemma reconcile_revoked:
  assumes "reconcile env eligible org' team s = Some (r, s')"
  shows "set (revoked s') \<subseteq> set (revoked s) \<union> - eligible"
proof (cases "current_members env org' team (world s)")
  case None
  with assms show ?thesis by (simp add: reconcile_def)
next
  case (Some a)
  obtain m w where a: "a = (m, w)" by (cases a)
  show ?thesis
  proof (cases m)
    case (Inl e)
    with assms Some a show ?thesis by (auto simp: reconcile_def revoked_def)
  next
    case (Inr members)
    obtain r1 s1 where rl:
      "revoke_loop env eligible org' team (set_order env members) (s\<lparr>world := w\<rparr>) = (r1, s1)"
      by (cases "revoke_loop env eligible org' team (set_order env members) (s\<lparr>world := w\<rparr>)")
    from revoke_loop_revoked [OF rl]
    have s1: "set (revoked s1) \<subseteq> set (revoked s) \<union> - eligible"
      by (auto simp: revoked_def)
    show ?thesis
    proof (cases r1)
      case (Inl e)
      with assms Some a Inr rl s1 show ?thesis by (simp add: reconcile_def)
    next
      case Inr2: (Inr u)
      with assms Some a Inr rl
      have "grant_loop env members org' team (set_order env eligible) s1 = (r, s')"
        by (simp add: reconcile_def)
      then have "revoked s' = revoked s1" by (rule grant_loop_revoked)
      with s1 show ?thesis by simp
    qed
  qed
qed

lemma reconcile_teams_revoked:
  "reconcile_teams env eligible teams s = Some (r, s') \<Longrightarrow>
     set (revoked s') \<subseteq> set (revoked s) \<union> - eligible"
proof (induction teams arbitrary: s)
  case Nil
  then show ?case by auto
next
  case (Cons t teams)
  obtain org' team where t: "t = (org', team)" by (cases t)
  show ?case
  proof (cases "reconcile env eligible org' team s")
    case None
    with Cons.prems t show ?thesis by simp
  next
    case (Some a)
    obtain r1 s1 where a: "a = (r1, s1)" by (cases a)
    with Some have s1: "set (revoked s1) \<subseteq> set (revoked s) \<union> - eligible"
      by (auto dest: reconcile_revoked)
    show ?thesis
    proof (cases r1)
      case (Inl e)
      with Cons.prems t Some a s1 show ?thesis by simp
    next
      case (Inr u)
      with Cons.prems t Some a have "reconcile_teams env eligible teams s1 = Some (r, s')" by simp
      then have "set (revoked s') \<subseteq> set (revoked s1) \<union> - eligible" by (rule Cons.IH)
      with s1 show ?thesis by auto
    qed
  qed
qed

lemma revoked_write_reports: "revoked (write_reports sponsors s) = revoked s"
  by (simp add: revoked_def write_reports_def write_file_def)

text \<open>
  \<^bold>\<open>C10.\<close> In every run, however it ends, no handle of the privileged set is among the
  handles a \<^verbatim>\<open>DELETE\<close> was sent for, whatever the team.
\<close>

theorem privileged_never_revoked:
  assumes "main env cfg (start w) = Some (r, s')"
  shows "set (revoked s') \<inter> privileged_users cfg = {}"
proof (cases "get_sponsors env w")
  case None
  with assms show ?thesis by (simp add: main_def start_def)
next
  case (Some a)
  obtain f w1 where a: "a = (f, w1)" by (cases a)
  show ?thesis
  proof (cases f)
    case (Inl e)
    with assms Some a show ?thesis by (auto simp: main_def start_def revoked_def)
  next
    case (Inr sponsors)
    let ?E = "eligible_users env cfg sponsors"
    let ?s1 = "start w\<lparr>world := w1\<rparr>"
    have start: "revoked ?s1 = []" by (simp add: revoked_def start_def)
    show ?thesis
    proof (cases "reconcile_teams env ?E (insiders_teams cfg) ?s1")
      case None
      with assms Some a Inr show ?thesis by (simp add: main_def start_def)
    next
      case Some2: (Some b)
      obtain r2 s2 where b: "b = (r2, s2)" by (cases b)
      from Some2 b have "set (revoked s2) \<subseteq> set (revoked ?s1) \<union> - ?E"
        by (auto dest: reconcile_teams_revoked)
      with start privileged_eligible [of cfg env sponsors]
      have s2: "set (revoked s2) \<inter> privileged_users cfg = {}" by auto
      from assms Some a Inr Some2 b have "revoked s' = revoked s2"
        by (auto simp: main_def start_def revoked_write_reports split: sum.splits)
      with s2 show ?thesis by simp
    qed
  qed
qed

text \<open>The witness is a run with the constants of the module: the maintainer is a member
  and no sponsor, carol is a member and not eligible.\<close>

theorem privileged_never_revoked_witness:
  "''15r10nk'' \<in> privileged_users module_config \<and>
   ''15r10nk'' \<in> set (confirmed_of maintainer_world) \<and>
   (\<exists>r s'. main simulated module_config (start maintainer_world) = Some (r, s') \<and>
      revoked s' = [''carol''] \<and>
      set (revoked s') \<inter> privileged_users module_config = {})"
proof -
  have run: "map_option (\<lambda>(r, s). revoked s) (main simulated module_config (start maintainer_world))
      = Some [''carol'']"
    by code_simp
  then obtain r s' where m: "main simulated module_config (start maintainer_world) = Some (r, s')"
    and rv: "revoked s' = [''carol'']"
    by (cases "main simulated module_config (start maintainer_world)") auto
  have p: "''15r10nk'' \<in> privileged_users module_config"
    and c: "''15r10nk'' \<in> set (confirmed_of maintainer_world)"
    by code_simp+
  from privileged_never_revoked [OF m]
  have "set (revoked s') \<inter> privileged_users module_config = {}" .
  with m rv p c show ?thesis by blast
qed

subsection \<open>Nothing to do\<close>

lemma revoke_loop_all_eligible:
  "set users \<subseteq> eligible \<Longrightarrow> revoke_loop env eligible org' team users s = (Inr (), s)"
  by (induction users) auto

lemma grant_loop_all_members:
  "set users \<subseteq> members \<Longrightarrow> grant_loop env members org' team users s = (Inr (), s)"
  by (induction users) auto

lemma finite_current_members:
  "current_members env org' team w = Some (Inr members, w') \<Longrightarrow> finite members"
  by (auto simp: current_members_def get_members_def get_invited_def
      split: option.splits prod.splits sum.splits)

lemma settled_members:
  "current_members simulated ''acme-insiders'' ''insiders'' settled_world
     = Some (Inr {''alice'', ''bob'', ''zed''}, settled_world)"
  by code_simp

lemma scenario_run:
  "map_option (\<lambda>(r, s). (r, map fst (calls s), stdout s, world s))
     (main simulated scenario_config (start scenario_world)) =
   Some (Inr (),
     [DELETE ''acme-insiders'' ''insiders'' ''carol'',
      PUT ''acme-insiders'' ''insiders'' ''alice'',
      PUT ''acme-insiders'' ''insiders'' ''bob''],
     [Removed ''carol'' ''acme-insiders'' ''insiders'',
      Added ''alice'' ''acme-insiders'' ''insiders'',
      Added ''bob'' ''acme-insiders'' ''insiders''],
     settled_world)"
  by code_simp

text \<open>
  When the set that line 206 computes equals the eligibility set, reconciling the team
  sends no request and prints nothing: both loops find nothing to do, and the state
  changes by the fetches only. The set of line 206 is the last page of members and the
  first page of invitations, so this covers a settled team whose members fit on one
  page of fewer than 100.
\<close>

lemma idle_when_snapshot_eligible:
  assumes "iterates_sets env"
    and "current_members env org' team (world s) = Some (Inr eligible, w)"
  shows "reconcile env eligible org' team s = Some (Inr (), s\<lparr>world := w\<rparr>)"
proof -
  from assms(2) have "finite eligible" by (rule finite_current_members)
  with assms(1) have "set (set_order env eligible) = eligible" by (rule set_set_order)
  then show ?thesis
    using assms(2)
    by (simp add: reconcile_def revoke_loop_all_eligible grant_loop_all_members)
qed

text \<open>An instance is the second run of the scenario: \<open>settled_world\<close> is the world its
  first run leaves (lemma \<open>scenario_run\<close>).\<close>

lemma idle_when_snapshot_eligible_example:
  "iterates_sets simulated \<and>
   eligible_users simulated scenario_config [alice, acme] = {''alice'', ''bob'', ''zed''} \<and>
   current_members simulated ''acme-insiders'' ''insiders'' (world (start settled_world))
     = Some (Inr {''alice'', ''bob'', ''zed''}, settled_world) \<and>
   reconcile simulated {''alice'', ''bob'', ''zed''} ''acme-insiders'' ''insiders'' (start settled_world)
     = Some (Inr (), start settled_world)"
proof -
  have w: "world (start settled_world) = settled_world"
    and u: "start settled_world\<lparr>world := settled_world\<rparr> = start settled_world"
    by (simp_all add: start_def)
  have m: "current_members simulated ''acme-insiders'' ''insiders'' (world (start settled_world))
     = Some (Inr {''alice'', ''bob'', ''zed''}, settled_world)"
    by (simp only: w settled_members)
  from idle_when_snapshot_eligible [OF iterates_sets_simulated m] iterates_sets_simulated m scenario_eligible u
  show ?thesis by simp
qed

subsection \<open>Failing requests\<close>

lemma grant_documented:
  assumes "put_membership env org' team user (world s) = (Inr r, w)" and "documented r"
  shows "grant env user org' team s =
           (Inr (), s\<lparr>world := w,
                      calls := calls s @ [(PUT org' team user, Inr r)],
                      stdout := stdout s @ diagnostic (PUT org' team user, Inr r)\<rparr>)"
  using assms
  by (auto simp: grant_def sent_def print_def Let_def documented_def raise_for_status_def
      split: body.splits option.splits)

lemma revoke_documented:
  assumes "delete_membership env org' team user (world s) = (Inr r, w)" and "documented r"
  shows "revoke env user org' team s =
           (Inr (), s\<lparr>world := w,
                      calls := calls s @ [(DELETE org' team user, Inr r)],
                      stdout := stdout s @ diagnostic (DELETE org' team user, Inr r)\<rparr>)"
  using assms
  by (auto simp: revoke_def sent_def print_def Let_def documented_def raise_for_status_def
      split: body.splits option.splits)

lemma put_documented:
  assumes "answers_documented env"
  obtains r w where "put_membership env org' team user w0 = (Inr r, w)" and "documented r"
proof -
  from assms obtain r where "fst (put_membership env org' team user w0) = Inr r" "documented r"
    unfolding answers_documented_def by blast
  then show thesis
    by (cases "put_membership env org' team user w0") (auto intro: that)
qed

lemma delete_documented:
  assumes "answers_documented env"
  obtains r w where "delete_membership env org' team user w0 = (Inr r, w)" and "documented r"
proof -
  from assms obtain r where "fst (delete_membership env org' team user w0) = Inr r" "documented r"
    unfolding answers_documented_def by blast
  then show thesis
    by (cases "delete_membership env org' team user w0") (auto intro: that)
qed

lemma grant_loop_documented:
  assumes "answers_documented env"
  shows "\<exists>s' new. grant_loop env members org' team users s = (Inr (), s') \<and>
           calls s' = calls s @ new \<and>
           map fst new = map (PUT org' team) (filter (\<lambda>user. user \<notin> members) users) \<and>
           stdout s' = stdout s @ concat (map diagnostic new)"
proof (induction users arbitrary: s)
  case Nil
  show ?case by simp
next
  case (Cons user rest)
  show ?case
  proof (cases "user \<notin> members")
    case False
    with Cons [of s] show ?thesis by simp
  next
    case True
    from assms obtain r w where p: "put_membership env org' team user (world s) = (Inr r, w)"
      and d: "documented r" by (rule put_documented)
    let ?c = "(PUT org' team user, Inr r)"
    let ?s1 = "s\<lparr>world := w, calls := calls s @ [?c], stdout := stdout s @ diagnostic ?c\<rparr>"
    have g: "grant env user org' team s = (Inr (), ?s1)" using p d by (rule grant_documented)
    from Cons [of ?s1] obtain s' new where
      l: "grant_loop env members org' team rest ?s1 = (Inr (), s')"
      and c: "calls s' = calls ?s1 @ new"
      and f: "map fst new = map (PUT org' team) (filter (\<lambda>user. user \<notin> members) rest)"
      and o: "stdout s' = stdout ?s1 @ concat (map diagnostic new)" by blast
    have "grant_loop env members org' team (user # rest) s = (Inr (), s')"
      using True g l by simp
    moreover have "calls s' = calls s @ (?c # new)" using c by simp
    moreover have "map fst (?c # new) = map (PUT org' team) (filter (\<lambda>user. user \<notin> members) (user # rest))"
      using True f by simp
    moreover have "stdout s' = stdout s @ concat (map diagnostic (?c # new))" using o by simp
    ultimately show ?thesis by blast
  qed
qed

lemma revoke_loop_documented:
  assumes "answers_documented env"
  shows "\<exists>s' new. revoke_loop env eligible org' team users s = (Inr (), s') \<and>
           calls s' = calls s @ new \<and>
           map fst new = map (DELETE org' team) (filter (\<lambda>user. user \<notin> eligible) users) \<and>
           stdout s' = stdout s @ concat (map diagnostic new)"
proof (induction users arbitrary: s)
  case Nil
  show ?case by simp
next
  case (Cons user rest)
  show ?case
  proof (cases "user \<notin> eligible")
    case False
    with Cons [of s] show ?thesis by simp
  next
    case True
    from assms obtain r w where p: "delete_membership env org' team user (world s) = (Inr r, w)"
      and d: "documented r" by (rule delete_documented)
    let ?c = "(DELETE org' team user, Inr r)"
    let ?s1 = "s\<lparr>world := w, calls := calls s @ [?c], stdout := stdout s @ diagnostic ?c\<rparr>"
    have g: "revoke env user org' team s = (Inr (), ?s1)" using p d by (rule revoke_documented)
    from Cons [of ?s1] obtain s' new where
      l: "revoke_loop env eligible org' team rest ?s1 = (Inr (), s')"
      and c: "calls s' = calls ?s1 @ new"
      and f: "map fst new = map (DELETE org' team) (filter (\<lambda>user. user \<notin> eligible) rest)"
      and o: "stdout s' = stdout ?s1 @ concat (map diagnostic new)" by blast
    have "revoke_loop env eligible org' team (user # rest) s = (Inr (), s')"
      using True g l by simp
    moreover have "calls s' = calls s @ (?c # new)" using c by simp
    moreover have "map fst (?c # new) = map (DELETE org' team) (filter (\<lambda>user. user \<notin> eligible) (user # rest))"
      using True f by simp
    moreover have "stdout s' = stdout s @ concat (map diagnostic (?c # new))" using o by simp
    ultimately show ?thesis by blast
  qed
qed

lemma filter_set_order:
  assumes "iterates_sets env" and "finite A"
  shows "set (filter (\<lambda>user. user \<notin> B) (set_order env A)) = A - B"
    and "distinct (filter (\<lambda>user. user \<notin> B) (set_order env A))"
  using assms by (auto simp: set_set_order distinct_set_order)

lemma answers_documented_simulated: "answers_documented simulated"
  by (simp add: answers_documented_def simulated_def documented_def is_success_def
      not_found_def ok_active_def no_content_def)

lemma alice_unknown_members:
  "current_members simulated ''acme-insiders'' ''insiders'' alice_unknown_world
     = Some (Inr {''carol'', ''zed''}, alice_unknown_world)"
  by code_simp

lemma alice_unknown_run:
  "map_option (\<lambda>(r, s). (r, map fst (calls s), stdout s))
     (reconcile simulated {''alice'', ''bob'', ''zed''} ''acme-insiders'' ''insiders''
        (start alice_unknown_world)) =
   Some (Inr (),
     [DELETE ''acme-insiders'' ''insiders'' ''carol'',
      PUT ''acme-insiders'' ''insiders'' ''alice'',
      PUT ''acme-insiders'' ''insiders'' ''bob''],
     [Removed ''carol'' ''acme-insiders'' ''insiders'',
      Couldnt_add ''alice'' ''acme-insiders'' ''insiders'' (HTTPStatusError 404),
      Message_see ''Not Found'' ''https://docs.github.com/rest'',
      Added ''bob'' ''acme-insiders'' ''insiders''])"
  by code_simp

text \<open>
  \<^bold>\<open>C5.\<close> A gateway answers the \<^verbatim>\<open>PUT\<close> for alice with a 502 whose body is an HTML
  page, a non-success response with a body. The handler of lines 170-174 prints the
  failure line and decodes the body; \<^verbatim>\<open>response.json()\<close> raises inside the
  \<^verbatim>\<open>except\<close> block, the run ends with that exception, bob is never granted and no
  report is written.
\<close>

theorem html_error_body_ends_run:
  "map_option (\<lambda>(r, s). (r, map fst (calls s), stdout s, files s ''numbers.json''))
     (main (behind_gateway ''alice'') scenario_config (start scenario_world)) =
   Some (Inl JSONDecodeError,
     [DELETE ''acme-insiders'' ''insiders'' ''carol'',
      PUT ''acme-insiders'' ''insiders'' ''alice''],
     [Removed ''carol'' ''acme-insiders'' ''insiders'',
      Couldnt_add ''alice'' ''acme-insiders'' ''insiders'' (HTTPStatusError 502)], None)"
  by code_simp

text \<open>
  The recovery the handler is written for does work on the responses it expects. When
  every membership request is answered in the provider's format (a failure has an empty
  body, or a JSON object with \<^verbatim>\<open>message\<close> and \<^verbatim>\<open>documentation_url\<close>), reconciling
  a team never ends with an exception: every member outside the eligibility set gets
  exactly one \<^verbatim>\<open>DELETE\<close>, then every eligible handle outside the membership gets
  exactly one \<^verbatim>\<open>PUT\<close>, whichever of them fail, and after each request the lines of
  \<open>diagnostic\<close> are printed.
\<close>

lemma documented_failures_stay_local:
  assumes "iterates_sets env" and "answers_documented env" and "finite eligible"
    and "current_members env org' team (world s) = Some (Inr members, w)"
  shows "\<exists>s' new to_revoke to_grant.
           reconcile env eligible org' team s = Some (Inr (), s') \<and>
           calls s' = calls s @ new \<and>
           map fst new = map (DELETE org' team) to_revoke @ map (PUT org' team) to_grant \<and>
           set to_revoke = members - eligible \<and> distinct to_revoke \<and>
           set to_grant = eligible - members \<and> distinct to_grant \<and>
           stdout s' = stdout s @ concat (map diagnostic new)"
proof -
  let ?rs = "filter (\<lambda>user. user \<notin> eligible) (set_order env members)"
  let ?gs = "filter (\<lambda>user. user \<notin> members) (set_order env eligible)"
  let ?s0 = "s\<lparr>world := w\<rparr>"
  from assms(4) have fin: "finite members" by (rule finite_current_members)
  from revoke_loop_documented [OF assms(2), of eligible org' team "set_order env members" ?s0]
  obtain s1 new1 where
    r: "revoke_loop env eligible org' team (set_order env members) ?s0 = (Inr (), s1)"
    and rc: "calls s1 = calls ?s0 @ new1"
    and rf: "map fst new1 = map (DELETE org' team) ?rs"
    and ro: "stdout s1 = stdout ?s0 @ concat (map diagnostic new1)" by blast
  from grant_loop_documented [OF assms(2), of members org' team "set_order env eligible" s1]
  obtain s2 new2 where
    g: "grant_loop env members org' team (set_order env eligible) s1 = (Inr (), s2)"
    and gc: "calls s2 = calls s1 @ new2"
    and gf: "map fst new2 = map (PUT org' team) ?gs"
    and go: "stdout s2 = stdout s1 @ concat (map diagnostic new2)" by blast
  have "reconcile env eligible org' team s = Some (Inr (), s2)"
    using assms(4) r g by (simp add: reconcile_def)
  moreover have "calls s2 = calls s @ (new1 @ new2)" using rc gc by simp
  moreover have "map fst (new1 @ new2) = map (DELETE org' team) ?rs @ map (PUT org' team) ?gs"
    using rf gf by simp
  moreover have "set ?rs = members - eligible" "distinct ?rs"
    using assms(1) fin by (rule filter_set_order)+
  moreover have "set ?gs = eligible - members" "distinct ?gs"
    using assms(1,3) by (rule filter_set_order)+
  moreover have "stdout s2 = stdout s @ concat (map diagnostic (new1 @ new2))"
    using ro go by simp
  ultimately show ?thesis by blast
qed

lemma documented_failures_stay_local_example:
  "iterates_sets simulated \<and> answers_documented simulated \<and>
   finite {''alice'', ''bob'', ''zed''} \<and>
   current_members simulated ''acme-insiders'' ''insiders'' (world (start alice_unknown_world))
     = Some (Inr {''carol'', ''zed''}, alice_unknown_world) \<and>
   (\<exists>s' new to_revoke to_grant.
      reconcile simulated {''alice'', ''bob'', ''zed''} ''acme-insiders'' ''insiders''
        (start alice_unknown_world) = Some (Inr (), s') \<and>
      calls s' = calls (start alice_unknown_world) @ new \<and>
      map fst new = map (DELETE ''acme-insiders'' ''insiders'') to_revoke
                    @ map (PUT ''acme-insiders'' ''insiders'') to_grant \<and>
      set to_revoke = {''carol'', ''zed''} - {''alice'', ''bob'', ''zed''} \<and> distinct to_revoke \<and>
      set to_grant = {''alice'', ''bob'', ''zed''} - {''carol'', ''zed''} \<and> distinct to_grant \<and>
      stdout s' = stdout (start alice_unknown_world) @ concat (map diagnostic new))"
proof -
  have m: "current_members simulated ''acme-insiders'' ''insiders'' (world (start alice_unknown_world))
     = Some (Inr {''carol'', ''zed''}, alice_unknown_world)"
    by (simp add: start_def alice_unknown_members)
  have f: "finite {''alice'', ''bob'', ''zed''}" by simp
  from documented_failures_stay_local [OF iterates_sets_simulated answers_documented_simulated f m]
    iterates_sets_simulated answers_documented_simulated f m
  show ?thesis by blast
qed

section \<open>Properties of the membership snapshot\<close>

text \<open>
  \<^bold>\<open>C1.\<close> A team of 101 members is listed on two pages, the first with 100 logins, the
  maintainer's among them, the second with \<^verbatim>\<open>zoe\<close>. The loop accumulates the logins
  of both pages in \<open>members\<close>, and \<^verbatim>\<open>get_members\<close> returns the logins of the last
  page only.
\<close>

theorem get_members_keeps_last_page_only:
  "(case get_members_loop simulated ''15r10nk-insiders'' ''insiders'' 1 {} large_team_world of
      Some (Inr (members, response), w) \<Rightarrow> ''15r10nk'' \<in> members \<and> response = [''zoe'']
    | _ \<Rightarrow> False) \<and>
   map_option fst (get_members simulated ''15r10nk-insiders'' ''insiders'' large_team_world)
     = Some (Inr {''zoe''})"
  by code_simp

text \<open>
  \<^bold>\<open>C4.\<close> In the same team, with the constants of the module, the maintainer is a
  confirmed member, listed on the first page, and is eligible; the run sends a
  \<^verbatim>\<open>PUT\<close> for the maintainer.
\<close>

theorem listed_member_granted_again:
  "''15r10nk'' \<in> set (confirmed_of large_team_world) \<and>
   map_option (\<lambda>(r, s). (r, map fst (calls s)))
     (main simulated module_config (start large_team_world))
   = Some (Inr (), [PUT ''15r10nk-insiders'' ''insiders'' ''15r10nk''])"
  by code_simp

section \<open>The end-to-end scenario\<close>

text \<open>
  \<^bold>\<open>C2\<close>, as stated, fails: the handles granted in the scenario are not
  \<^verbatim>\<open>{alice, acme, bob}\<close>.
\<close>

theorem scenario_grants_not_acme:
  "map_option (\<lambda>(r, s). set (granted s)) (main simulated scenario_config (start scenario_world))
     \<noteq> Some {''alice'', ''acme'', ''bob''}"
  by code_simp

subsection \<open>The handles of a request log\<close>

lemma puts_only:
  "map fst new = map (PUT org' team) users \<Longrightarrow>
     concat (map granted_by new) = users \<and> concat (map revoked_by new) = []"
proof (induction new arbitrary: users)
  case Nil
  then show ?case by simp
next
  case (Cons c new)
  then obtain user rest where "users = user # rest" by (cases users) auto
  with Cons show ?case by (cases c) auto
qed

lemma deletes_only:
  "map fst new = map (DELETE org' team) users \<Longrightarrow>
     concat (map revoked_by new) = users \<and> concat (map granted_by new) = []"
proof (induction new arbitrary: users)
  case Nil
  then show ?case by simp
next
  case (Cons c new)
  then obtain user rest where "users = user # rest" by (cases users) auto
  with Cons show ?case by (cases c) auto
qed

lemma deletes_then_puts:
  assumes "map fst new = map (DELETE org' team) to_revoke @ map (PUT org' team) to_grant"
  shows "concat (map revoked_by new) = to_revoke" and "concat (map granted_by new) = to_grant"
proof -
  from assms obtain new1 new2 where n: "new = new1 @ new2"
    and d: "map fst new1 = map (DELETE org' team) to_revoke"
    and p: "map fst new2 = map (PUT org' team) to_grant"
    by (auto simp: map_eq_append_conv)
  from deletes_only [OF d] puts_only [OF p] n
  show "concat (map revoked_by new) = to_revoke" and "concat (map granted_by new) = to_grant"
    by simp_all
qed

subsection \<open>The scenario under any iteration order\<close>

lemma answers_documented_simulated_in: "answers_documented (simulated_in order)"
  by (simp add: answers_documented_def simulated_in_def simulated_def documented_def
      is_success_def not_found_def ok_active_def no_content_def)

lemma scenario_sponsors_in:
  "get_sponsors (simulated_in order) scenario_world = Some (Inr [alice, acme], scenario_world)"
  unfolding simulated_in_def by code_simp

lemma scenario_members_in:
  "current_members (simulated_in order) ''acme-insiders'' ''insiders'' scenario_world
     = Some (Inr {''carol'', ''zed''}, scenario_world)"
  unfolding simulated_in_def by code_simp

lemma scenario_orgs: "eligible_orgs scenario_config [alice, acme] = {''acme''}"
  by code_simp

lemma scenario_eligible_in:
  assumes "iterates_sets (simulated_in order)"
  shows "eligible_users (simulated_in order) scenario_config [alice, acme] = {''alice'', ''bob'', ''zed''}"
proof -
  have "set (set_order (simulated_in order) (eligible_orgs scenario_config [alice, acme])) = {''acme''}"
    using set_set_order [OF assms finite_eligible_orgs, of scenario_config "[alice, acme]"]
    by (simp only: scenario_orgs)
  moreover have "sponsoring_users scenario_config [alice, acme] = {''alice''}" by code_simp
  moreover have "org_users_get scenario_config ''acme'' = {''bob''}" by code_simp
  moreover have "privileged_users scenario_config = {''zed''}" by code_simp
  ultimately show ?thesis
    by (auto simp: eligible_users_def add_org_users_eq)
qed

text \<open>
  \<^bold>\<open>C2\<close>, amended. Whatever the order in which the sets are iterated, the run of the
  scenario ends normally, having sent a \<^verbatim>\<open>PUT\<close> for exactly alice and bob and a
  \<^verbatim>\<open>DELETE\<close> for exactly carol: acme, an organization, is not granted.
\<close>

theorem scenario_grants_and_revokes:
  assumes "iterates_sets (simulated_in order)"
  shows "\<exists>s'. main (simulated_in order) scenario_config (start scenario_world) = Some (Inr (), s') \<and>
           set (granted s') = {''alice'', ''bob''} \<and> set (revoked s') = {''carol''}"
proof -
  let ?env = "simulated_in order"
  let ?E = "{''alice'', ''bob'', ''zed''}"
  let ?M = "{''carol'', ''zed''}"
  let ?s0 = "start scenario_world\<lparr>world := scenario_world\<rparr>"
  let ?rs = "filter (\<lambda>user. user \<notin> ?E) (set_order ?env ?M)"
  let ?gs = "filter (\<lambda>user. user \<notin> ?M) (set_order ?env ?E)"
  have s0: "calls ?s0 = []" "world ?s0 = scenario_world" "world (start scenario_world) = scenario_world"
    by (simp_all add: start_def)
  from revoke_loop_documented [OF answers_documented_simulated_in,
      of order ?E "''acme-insiders''" "''insiders''" "set_order ?env ?M" ?s0]
  obtain s1 new1 where
    r: "revoke_loop ?env ?E ''acme-insiders'' ''insiders'' (set_order ?env ?M) ?s0 = (Inr (), s1)"
    and rc: "calls s1 = calls ?s0 @ new1"
    and rf: "map fst new1 = map (DELETE ''acme-insiders'' ''insiders'') ?rs" by blast
  from grant_loop_documented [OF answers_documented_simulated_in,
      of order ?M "''acme-insiders''" "''insiders''" "set_order ?env ?E" s1]
  obtain s2 new2 where
    g: "grant_loop ?env ?M ''acme-insiders'' ''insiders'' (set_order ?env ?E) s1 = (Inr (), s2)"
    and gc: "calls s2 = calls s1 @ new2"
    and gf: "map fst new2 = map (PUT ''acme-insiders'' ''insiders'') ?gs" by blast
  have rec: "reconcile ?env ?E ''acme-insiders'' ''insiders'' ?s0 = Some (Inr (), s2)"
    using r g s0 by (simp add: reconcile_def scenario_members_in)
  have teams: "insiders_teams scenario_config = [(''acme-insiders'', ''insiders'')]"
    by (simp add: scenario_config_def)
  let ?s' = "write_reports [alice, acme] s2"
  have run: "main ?env scenario_config (start scenario_world) = Some (Inr (), ?s')"
    using rec by (simp add: main_def s0 scenario_sponsors_in scenario_eligible_in [OF assms] teams)
  have c: "calls ?s' = new1 @ new2"
    using rc gc s0 by (simp add: write_reports_def write_file_def)
  have "map fst (new1 @ new2) =
      map (DELETE ''acme-insiders'' ''insiders'') ?rs @ map (PUT ''acme-insiders'' ''insiders'') ?gs"
    using rf gf by simp
  then have "concat (map revoked_by (new1 @ new2)) = ?rs"
    and "concat (map granted_by (new1 @ new2)) = ?gs"
    by (rule deletes_then_puts)+
  with c have rv: "revoked ?s' = ?rs" and gr: "granted ?s' = ?gs"
    by (simp_all add: revoked_def granted_def)
  have "set ?rs = ?M - ?E" using assms by (intro filter_set_order) simp_all
  also have "?M - ?E = {''carol''}" by auto
  finally have rs: "set (revoked ?s') = {''carol''}" by (simp only: rv)
  have "set ?gs = ?E - ?M" using assms by (intro filter_set_order) simp_all
  also have "?E - ?M = {''alice'', ''bob''}" by auto
  finally have gs: "set (granted ?s') = {''alice'', ''bob''}" by (simp only: gr)
  from run gs rs show ?thesis by blast
qed

theorem scenario_grants_and_revokes_witness:
  "iterates_sets (simulated_in sorted_list_of_set) \<and>
   map_option (\<lambda>(r, s). (r, granted s, revoked s))
     (main (simulated_in sorted_list_of_set) scenario_config (start scenario_world))
   = Some (Inr (), [''alice'', ''bob''], [''carol''])"
proof -
  have i: "iterates_sets (simulated_in sorted_list_of_set)"
    by (simp add: iterates_sets_def simulated_in_def)
  have e: "map_option (\<lambda>(r, s). (r, granted s, revoked s))
     (main (simulated_in sorted_list_of_set) scenario_config (start scenario_world))
   = Some (Inr (), [''alice'', ''bob''], [''carol''])"
    by code_simp
  from scenario_grants_and_revokes [OF i] i e show ?thesis by simp
qed

section \<open>A second run on a settled team\<close>

lemma lower_User: "lower ''User'' \<noteq> ''organization''"
  by code_simp

lemma lower_PUBLIC: "lower ''PUBLIC'' \<noteq> ''private''"
  by code_simp

lemma append_sponsor_nodes:
  "append_sponsors simulated (map sponsor_node users) sponsors =
     Inr (sponsors @ map sponsor_of users)"
  by (induction users arbitrary: sponsors)
    (simp_all add: sponsor_node_def sponsor_of_def simulated_def lower_User lower_PUBLIC)

lemma length_settled_sponsors: "length settled_sponsors = 100"
  by (simp add: settled_sponsors_def)

lemma length_first_page: "length first_page = 100"
  by (simp add: first_page_def)

lemma settled_large_sponsors:
  "get_sponsors simulated settled_large_world =
     Some (Inr (map sponsor_of settled_sponsors), settled_large_world)"
proof -
  have "post_graphql simulated ''null'' settled_large_world =
      (Inr \<lparr>nodes = map sponsor_node settled_sponsors, hasNextPage = False,
            endCursor = replicate 100 CHR ''x''\<rparr>, settled_large_world)"
    by (simp add: simulated_def offset_of_def settled_large_world_def length_settled_sponsors)
  then show ?thesis
    unfolding get_sponsors_def
    by (subst get_sponsors_loop.simps) (simp add: append_sponsor_nodes)
qed

lemma eligible_sponsors_of:
  "eligible_users simulated module_config (map sponsor_of users) = insert ''15r10nk'' (set users)"
proof -
  have "eligible_orgs module_config (map sponsor_of users) = {}"
    by (simp add: eligible_orgs_def sponsor_of_def filter_map o_def)
  moreover have "sponsoring_users module_config (map sponsor_of users) = set users"
    by (simp add: sponsoring_users_def sponsor_of_def filter_map o_def module_config_def
        MIN_AMOUNT_def)
  moreover have "set_order simulated {} = []"
    by (simp add: simulated_def)
  moreover have "privileged_users module_config = {''15r10nk''}"
    by (simp add: module_config_def PRIVILEGED_USERS_def)
  ultimately show ?thesis
    by (simp add: eligible_users_def)
qed

lemma settled_large_listing:
  "set (confirmed_of settled_large_world) = insert ''15r10nk'' (set settled_sponsors)"
  by (auto simp: settled_large_world_def large_team_world_def first_page_def settled_sponsors_def)

lemma settled_large_members:
  "current_members simulated org' team settled_large_world =
     Some (Inr {''zoe''}, settled_large_world)"
proof -
  let ?w = settled_large_world
  have c: "confirmed_of ?w = first_page @ [''zoe'']"
    by (simp add: settled_large_world_def large_team_world_def)
  have p1: "get_team_members simulated org' team 1 ?w = (Inr first_page, ?w)"
    by (simp add: simulated_def c length_first_page)
  have p2: "get_team_members simulated org' team 2 ?w = (Inr [''zoe''], ?w)"
    by (simp add: simulated_def c length_first_page)
  have "get_members_loop simulated org' team 2 (set first_page) ?w =
      Some (Inr (set first_page \<union> {''zoe''}, [''zoe'']), ?w)"
    by (subst get_members_loop.simps) (simp add: p2)
  then have "get_members_loop simulated org' team 1 {} ?w =
      Some (Inr (set first_page \<union> {''zoe''}, [''zoe'']), ?w)"
    by (subst get_members_loop.simps) (simp add: p1 [unfolded One_nat_def] length_first_page numeral_2_eq_2)
  then have "get_members simulated org' team ?w = Some (Inr {''zoe''}, ?w)"
    by (simp add: get_members_def)
  moreover have "get_invited simulated org' team ?w = (Inr {}, ?w)"
    by (simp add: get_invited_def simulated_def settled_large_world_def large_team_world_def)
  ultimately show ?thesis
    by (simp add: current_members_def)
qed

text \<open>
  \<^bold>\<open>C7.\<close> The team of 101 members is settled: its members are exactly the eligible
  handles. The run computes the membership \<^verbatim>\<open>{zoe}\<close>, the last page, and sends a
  \<^verbatim>\<open>PUT\<close> for every other member, the maintainer among them.
\<close>

theorem settled_team_granted_again:
  "eligible_users simulated module_config (map sponsor_of settled_sponsors)
     = set (confirmed_of settled_large_world) \<and>
   get_sponsors simulated settled_large_world
     = Some (Inr (map sponsor_of settled_sponsors), settled_large_world) \<and>
   (\<exists>s'. main simulated module_config (start settled_large_world) = Some (Inr (), s') \<and>
      revoked s' = [] \<and>
      set (granted s') = set (confirmed_of settled_large_world) - {''zoe''} \<and>
      ''15r10nk'' \<in> set (granted s'))"
proof -
  let ?w = settled_large_world
  let ?E = "insert ''15r10nk'' (set settled_sponsors)"
  let ?s0 = "start ?w\<lparr>world := ?w\<rparr>"
  let ?gs = "filter (\<lambda>user. user \<notin> {''zoe''}) (set_order simulated ?E)"
  have e: "eligible_users simulated module_config (map sponsor_of settled_sponsors) = ?E"
    by (rule eligible_sponsors_of)
  have s0: "calls ?s0 = []" "world ?s0 = ?w" "world (start ?w) = ?w"
    by (simp_all add: start_def)
  have zoe: "''zoe'' \<in> ?E" by (simp add: settled_sponsors_def)
  have "set (set_order simulated {''zoe''}) = {''zoe''}"
    by (simp add: set_set_order [OF iterates_sets_simulated])
  with zoe have r: "revoke_loop simulated ?E ''15r10nk-insiders'' ''insiders''
      (set_order simulated {''zoe''}) ?s0 = (Inr (), ?s0)"
    by (intro revoke_loop_all_eligible) simp
  from grant_loop_documented [OF answers_documented_simulated,
      of "{''zoe''}" "''15r10nk-insiders''" "''insiders''" "set_order simulated ?E" ?s0]
  obtain s1 new where
    g: "grant_loop simulated {''zoe''} ''15r10nk-insiders'' ''insiders''
          (set_order simulated ?E) ?s0 = (Inr (), s1)"
    and gc: "calls s1 = calls ?s0 @ new"
    and gf: "map fst new = map (PUT ''15r10nk-insiders'' ''insiders'') ?gs" by blast
  have rec: "reconcile simulated ?E ''15r10nk-insiders'' ''insiders'' ?s0 = Some (Inr (), s1)"
    using r g s0 by (simp add: reconcile_def settled_large_members)
  have teams: "insiders_teams module_config = [(''15r10nk-insiders'', ''insiders'')]"
    by (simp add: module_config_def INSIDERS_TEAMS_def)
  let ?s' = "write_reports (map sponsor_of settled_sponsors) s1"
  have run: "main simulated module_config (start ?w) = Some (Inr (), ?s')"
    using rec by (simp add: main_def s0 settled_large_sponsors e teams)
  have c: "calls ?s' = new"
    using gc s0 by (simp add: write_reports_def write_file_def)
  from puts_only [OF gf] c have gr: "granted ?s' = ?gs" and rv: "revoked ?s' = []"
    by (simp_all add: granted_def revoked_def)
  have "set ?gs = ?E - {''zoe''}"
    using iterates_sets_simulated by (rule filter_set_order) simp
  with gr have gs: "set (granted ?s') = set (confirmed_of ?w) - {''zoe''}"
    by (simp only: settled_large_listing)
  then have m: "''15r10nk'' \<in> set (granted ?s')"
    by (simp add: settled_large_listing)
  from e settled_large_listing settled_large_sponsors run rv gs m show ?thesis
    by (simp only:) blast
qed

section \<open>Properties of the reports\<close>

text \<open>
  \<^bold>\<open>C9.\<close> A run that ends normally has written to \<^verbatim>\<open>sponsors.json\<close> the accounts of
  exactly the sponsors that are not private, in the order fetched, and to
  \<^verbatim>\<open>numbers.json\<close> the sum of the amounts and the number of all sponsors, private or
  not.
\<close>

theorem reports_written:
  assumes "get_sponsors env (world s) = Some (Inr sponsors, w)"
    and "main env cfg s = Some (Inr (), s')"
  shows "files s' ''sponsors.json'' =
           Some (JList (map (\<lambda>sponsor. as_dict (account sponsor))
                          (filter (\<lambda>sponsor. \<not> private sponsor) sponsors))) \<and>
         files s' ''numbers.json'' =
           Some (JObj [(''total'', JInt (sum_list (map amount sponsors))),
                       (''count'', JInt (int (length sponsors)))])"
  using assms
  by (auto simp: main_def write_reports_def write_file_def sponsors_json_def numbers_json_def
      split: option.splits prod.splits sum.splits)

lemma reports_sponsors:
  "get_sponsors simulated reports_world = Some (Inr [alice, pat], reports_world)"
  by code_simp

lemma reports_run:
  "map_option (\<lambda>(r, s). (r, map fst (calls s), files s ''sponsors.json'', files s ''numbers.json''))
     (main simulated scenario_config (start reports_world)) =
   Some (Inr (), [],
     Some (JList [as_dict (account alice)]),
     Some (JObj [(''total'', JInt 17), (''count'', JInt 2)]))"
  by code_simp

theorem reports_written_witness:
  "get_sponsors simulated (world (start reports_world)) = Some (Inr [alice, pat], reports_world) \<and>
   private pat \<and> \<not> private alice \<and>
   (\<exists>s'. main simulated scenario_config (start reports_world) = Some (Inr (), s') \<and>
      files s' ''sponsors.json'' = Some (JList [as_dict (account alice)]) \<and>
      files s' ''numbers.json'' = Some (JObj [(''total'', JInt 17), (''count'', JInt 2)]))"
proof -
  have g: "get_sponsors simulated (world (start reports_world)) = Some (Inr [alice, pat], reports_world)"
    by (simp add: start_def reports_sponsors)
  from reports_run obtain s' where
    m: "main simulated scenario_config (start reports_world) = Some (Inr (), s')"
    by (cases "main simulated scenario_config (start reports_world)") auto
  from reports_written [OF g m] g m show ?thesis
    by (simp add: alice_def pat_def)
qed

section \<open>One-time payments\<close>

subsection \<open>Functions that do not read the sponsorship API\<close>

lemma append_sponsors_update [simp]:
  "append_sponsors (env\<lparr>post_graphql := g\<rparr>) items sponsors = append_sponsors env items sponsors"
  by (induction items arbitrary: sponsors) (auto simp: Let_def split: option.splits)

lemma append_sponsors_filter:
  "append_sponsors env (filter (\<lambda>item. \<not> isOneTimePayment item) items) sponsors =
     append_sponsors env items sponsors"
  by (induction items arbitrary: sponsors) (auto simp: Let_def split: option.splits)

lemma get_members_loop_update_Some:
  assumes "get_members_loop env org' team page members w = Some y"
  shows "get_members_loop (env\<lparr>post_graphql := g\<rparr>) org' team page members w = Some y"
proof (induction rule: get_members_loop.raw_induct [OF _ assms])
  case (1 loop env org' team page members w y)
  show ?case
  proof (cases "get_team_members env org' team page w")
    case (Pair a w')
    show ?thesis
    proof (cases a)
      case (Inl e)
      with 1(2) Pair show ?thesis by (subst get_members_loop.simps) simp
    next
      case (Inr response_data)
      show ?thesis
      proof (cases "length response_data < 100")
        case True
        with 1(2) Pair Inr show ?thesis by (subst get_members_loop.simps) simp
      next
        case False
        with 1(2) Pair Inr
        have "loop env org' team (page + 1) (members \<union> set response_data) w' = Some y" by simp
        then have "get_members_loop (env\<lparr>post_graphql := g\<rparr>) org' team (page + 1)
                     (members \<union> set response_data) w' = Some y" by (rule 1(1))
        with Pair Inr False show ?thesis by (subst get_members_loop.simps) simp
      qed
    qed
  qed
qed

lemma get_members_loop_update_back:
  assumes "get_members_loop (env\<lparr>post_graphql := g\<rparr>) org' team page members w = Some y"
  shows "get_members_loop env org' team page members w = Some y"
proof -
  have "env\<lparr>post_graphql := g\<rparr>\<lparr>post_graphql := post_graphql env\<rparr> = env" by simp
  with get_members_loop_update_Some [OF assms, of "post_graphql env"] show ?thesis by simp
qed

lemma get_members_loop_update [simp]:
  "get_members_loop (env\<lparr>post_graphql := g\<rparr>) org' team page members w =
     get_members_loop env org' team page members w"
proof (cases "get_members_loop env org' team page members w")
  case (Some y)
  then show ?thesis by (simp add: get_members_loop_update_Some)
next
  case None
  show ?thesis
  proof (cases "get_members_loop (env\<lparr>post_graphql := g\<rparr>) org' team page members w")
    case None': None
    with None show ?thesis by simp
  next
    case (Some y)
    then have "get_members_loop env org' team page members w = Some y"
      by (rule get_members_loop_update_back)
    with None show ?thesis by simp
  qed
qed

lemma grant_update [simp]: "grant (env\<lparr>post_graphql := g\<rparr>) = grant env"
  by (rule ext)+ (simp add: grant_def)

lemma revoke_update [simp]: "revoke (env\<lparr>post_graphql := g\<rparr>) = revoke env"
  by (rule ext)+ (simp add: revoke_def)

lemma grant_loop_update [simp]:
  "grant_loop (env\<lparr>post_graphql := g\<rparr>) members org' team users s =
     grant_loop env members org' team users s"
  by (induction users arbitrary: s) (auto split: prod.splits sum.splits)

lemma revoke_loop_update [simp]:
  "revoke_loop (env\<lparr>post_graphql := g\<rparr>) eligible org' team users s =
     revoke_loop env eligible org' team users s"
  by (induction users arbitrary: s) (auto split: prod.splits sum.splits)

lemma reconcile_update [simp]:
  "reconcile (env\<lparr>post_graphql := g\<rparr>) eligible org' team s = reconcile env eligible org' team s"
  by (simp add: reconcile_def current_members_def get_members_def get_invited_def
      cong: option.case_cong prod.case_cong sum.case_cong)

lemma reconcile_teams_update [simp]:
  "reconcile_teams (env\<lparr>post_graphql := g\<rparr>) eligible teams s =
     reconcile_teams env eligible teams s"
  by (induction teams arbitrary: s) (auto split: option.splits prod.splits sum.splits)

lemma eligible_users_update [simp]:
  "eligible_users (env\<lparr>post_graphql := g\<rparr>) cfg sponsors = eligible_users env cfg sponsors"
  by (simp add: eligible_users_def)

subsection \<open>Removing the one-time payments changes nothing\<close>

lemma post_graphql_without_one_time:
  "post_graphql (without_one_time env) cursor w =
     (case post_graphql env cursor w of
        (Inl e, w') \<Rightarrow> (Inl e, w')
      | (Inr data, w') \<Rightarrow>
          (Inr (data\<lparr>nodes := filter (\<lambda>item. \<not> isOneTimePayment item) (nodes data)\<rparr>), w'))"
  by (simp add: without_one_time_def)

lemma append_sponsors_without_one_time [simp]:
  "append_sponsors (without_one_time env) items sponsors = append_sponsors env items sponsors"
  by (simp add: without_one_time_def)

lemma get_sponsors_loop_forth:
  assumes "get_sponsors_loop env cursor sponsors w = Some y"
  shows "get_sponsors_loop (without_one_time env) cursor sponsors w = Some y"
proof (induction rule: get_sponsors_loop.raw_induct [OF _ assms])
  case (1 loop env cursor sponsors w y)
  show ?case
  proof (cases "post_graphql env cursor w")
    case (Pair a w')
    show ?thesis
    proof (cases a)
      case (Inl e)
      with 1(2) Pair show ?thesis
        by (subst get_sponsors_loop.simps) (simp add: post_graphql_without_one_time)
    next
      case (Inr data)
      show ?thesis
      proof (cases "append_sponsors env (nodes data) sponsors")
        case Inl2: (Inl e)
        with 1(2) Pair Inr show ?thesis
          by (subst get_sponsors_loop.simps)
            (simp add: post_graphql_without_one_time append_sponsors_filter)
      next
        case Inr2: (Inr sponsors')
        show ?thesis
        proof (cases "hasNextPage data")
          case False
          with 1(2) Pair Inr Inr2 show ?thesis
            by (subst get_sponsors_loop.simps)
              (simp add: post_graphql_without_one_time append_sponsors_filter)
        next
          case True
          with 1(2) Pair Inr Inr2
          have "loop env (quoted (endCursor data)) sponsors' w' = Some y" by simp
          then have "get_sponsors_loop (without_one_time env) (quoted (endCursor data)) sponsors' w'
                       = Some y" by (rule 1(1))
          with Pair Inr Inr2 True show ?thesis
            by (subst get_sponsors_loop.simps)
              (simp add: post_graphql_without_one_time append_sponsors_filter)
        qed
      qed
    qed
  qed
qed

lemma get_sponsors_loop_back_aux:
  assumes "get_sponsors_loop env' cursor sponsors w = Some y"
  shows "\<forall>env. env' = without_one_time env \<longrightarrow> get_sponsors_loop env cursor sponsors w = Some y"
proof (induction rule: get_sponsors_loop.raw_induct [OF _ assms])
  case (1 loop env' cursor sponsors w y)
  show ?case
  proof (intro allI impI)
  fix env
  assume env': "env' = without_one_time env"
  show "get_sponsors_loop env cursor sponsors w = Some y"
  proof (cases "post_graphql env cursor w")
    case (Pair a w')
    show ?thesis
    proof (cases a)
      case (Inl e)
      with 1(2) Pair env' show ?thesis
        by (subst get_sponsors_loop.simps) (simp add: post_graphql_without_one_time)
    next
      case (Inr data)
      show ?thesis
      proof (cases "append_sponsors env (nodes data) sponsors")
        case Inl2: (Inl e)
        with 1(2) Pair Inr env' show ?thesis
          by (subst get_sponsors_loop.simps)
            (simp add: post_graphql_without_one_time append_sponsors_filter)
      next
        case Inr2: (Inr sponsors')
        show ?thesis
        proof (cases "hasNextPage data")
          case False
          with 1(2) Pair Inr Inr2 env' show ?thesis
            by (subst get_sponsors_loop.simps)
              (simp add: post_graphql_without_one_time append_sponsors_filter)
        next
          case True
          with 1(2) Pair Inr Inr2 env'
          have next_page: "loop env' (quoted (endCursor data)) sponsors' w' = Some y"
            by (simp add: post_graphql_without_one_time append_sponsors_filter)
          have "get_sponsors_loop env (quoted (endCursor data)) sponsors' w' = Some y"
            by (rule 1(1) [OF next_page, rule_format, OF env'])
          with Pair Inr Inr2 True show ?thesis
            by (subst get_sponsors_loop.simps) simp
        qed
      qed
    qed
  qed
  qed
qed

lemma get_sponsors_without_one_time:
  "get_sponsors (without_one_time env) w = get_sponsors env w"
proof (cases "get_sponsors_loop env ''null'' [] w")
  case (Some y)
  then show ?thesis by (simp add: get_sponsors_def get_sponsors_loop_forth)
next
  case None
  show ?thesis
  proof (cases "get_sponsors_loop (without_one_time env) ''null'' [] w")
    case None': None
    with None show ?thesis by (simp add: get_sponsors_def)
  next
    case (Some y)
    then have "get_sponsors_loop env ''null'' [] w = Some y"
      by (rule get_sponsors_loop_back_aux [rule_format, OF _ refl])
    with None show ?thesis by simp
  qed
qed

lemma one_time_example:
  "isOneTimePayment dave_node \<and> min_amount scenario_config \<le> monthlyPriceInDollars dave_node \<and>
   get_sponsors simulated reports_world = Some (Inr [alice, pat], reports_world) \<and>
   ''dave'' \<notin> eligible_users simulated scenario_config [alice, pat]"
  by code_simp

text \<open>
  \<^bold>\<open>C8.\<close> A run is the same whether or not the one-time payments are among the
  records the sponsorship API returns: the same requests, printed lines, reports
  (roster, total and count), final world and outcome. So a record flagged one-time
  contributes to none of them.
\<close>

theorem one_time_payments_ignored:
  "main (without_one_time env) cfg s = main env cfg s"
proof -
  have rest: "reconcile_teams (without_one_time env) eligible teams s1 =
      reconcile_teams env eligible teams s1" for eligible teams s1
    by (simp add: without_one_time_def)
  have el: "eligible_users (without_one_time env) cfg sponsors = eligible_users env cfg sponsors"
    for sponsors
    by (simp add: without_one_time_def)
  show ?thesis
    by (simp add: main_def get_sponsors_without_one_time rest el
        cong: option.case_cong prod.case_cong sum.case_cong)
qed

end
